theory Spec2Isabelle
  imports Complex_Main
begin

section \<open>Earth longitude zones: the circular-geometry engine of earth_zones.py\<close>

text \<open>
  The program partitions the circle of longitudes into ten zones of 36 degrees and maps
  points and ranges of longitude to zones. Its numbers are Python floats. Three layers
  model them:
  \<^item> the exact layer, where a float is a \<^typ>\<open>real\<close> and every operation is exact; this
    is the data model the specification describes, which the program follows up to
    rounding;
  \<^item> the binary64 layer (suffix \<open>_b64\<close>), where the rounding of every floating-point
    operation is written out: the program as CPython runs it on finite doubles;
  \<^item> the layer of special values (suffix \<open>_x\<close>), where a float may also be NaN or an
    infinity and an exception of the source is an error value.
\<close>

subsection \<open>Constants\<close>

definition ZONE_WIDTH_DEG :: real where
  "ZONE_WIDTH_DEG = 36"

definition LANGFANG_LON_EAST_BOUNDARY :: real where
  "LANGFANG_LON_EAST_BOUNDARY = 1167 / 10"

subsection \<open>Exact layer: the normalizer\<close>

text \<open>
  Python's \<open>x % m\<close> on floats has the sign of the divisor: for \<open>m > 0\<close> it is
  \<open>x - m * floor (x / m)\<close>. Every call of the source has the divisor \<open>360.0\<close>.
\<close>

definition py_mod :: "real \<Rightarrow> real \<Rightarrow> real" where
  "py_mod x m = x - m * of_int \<lfloor>x / m\<rfloor>"

definition normalize_lon_edge :: "real \<Rightarrow> real" where
  "normalize_lon_edge lon =
     (let x = py_mod (lon + 180) 360 - 180
      in if x = - 180 \<and> lon > 0 then 180 else x)"

definition normalize_lon_point :: "real \<Rightarrow> real" where
  "normalize_lon_point lon =
     (let x = normalize_lon_edge lon
      in if x = 180 then - 180 else x)"

text \<open>The class of inputs that denote the meridian 180: \<open>180 + 360 k\<close> for an integer \<open>k\<close>.\<close>

definition in_class_180 :: "real \<Rightarrow> bool" where
  "in_class_180 x = (py_mod (x - 180) 360 = 0)"

subsection \<open>Exact layer: minimal covering interval\<close>

definition lon_to_360 :: "real \<Rightarrow> real" where
  "lon_to_360 lon = py_mod lon 360"

definition lon360_to_edge :: "real \<Rightarrow> real" where
  "lon360_to_edge lon360 =
     (let x = (if lon360 > 180 then lon360 - 360 else lon360)
      in if x = - 180 then - 180 else x)"

text \<open>
  The loop over \<open>range(len(pts))\<close> that looks for the largest gap: the state is
  \<open>(max_gap, max_i)\<close>, and a gap replaces the maximum only when strictly larger.
\<close>

fun gap_scan :: "real list \<Rightarrow> nat list \<Rightarrow> real \<times> nat \<Rightarrow> real \<times> nat" where
  "gap_scan pts [] st = st"
| "gap_scan pts (i # is) (max_gap, max_i) =
     (let a = pts ! i;
          b = pts ! ((i + 1) mod length pts);
          gap = py_mod (b - a) 360
      in if gap > max_gap then gap_scan pts is (gap, i)
         else gap_scan pts is (max_gap, max_i))"

definition circular_min_cover_interval :: "real list \<Rightarrow> (real \<times> real) option" where
  "circular_min_cover_interval lons =
     (if lons = [] then None
      else let pts = sort (map lon_to_360 lons)
           in if length pts = 1
              then let w = lon360_to_edge (pts ! 0) in Some (w, w)
              else let max_i = snd (gap_scan pts [0 ..< length pts] (- 1, 0));
                       east_start = pts ! ((max_i + 1) mod length pts);
                       west_start = pts ! max_i;
                       west_360 = east_start;
                       east_360 = west_start
                   in Some (lon360_to_edge west_360, lon360_to_edge east_360))"

subsection \<open>Exact layer: zones\<close>

record ZoneInterval =
  zone :: int
  west :: real
  east :: real

text \<open>The local variable \<open>origin\<close> of both zone functions: the west edge of zone 9.\<close>

definition zone_origin :: "real \<Rightarrow> real" where
  "zone_origin east_boundary_zone9 =
     (let east_b = normalize_lon_point east_boundary_zone9
      in normalize_lon_point (east_b - ZONE_WIDTH_DEG))"

text \<open>The interval built from \<open>origin\<close> and \<open>steps_east\<close>, the same in both functions.\<close>

definition zone_at :: "real \<Rightarrow> int \<Rightarrow> ZoneInterval" where
  "zone_at origin steps_east =
     (let z = (9 - steps_east) mod 10;
          w = normalize_lon_point (origin + of_int steps_east * ZONE_WIDTH_DEG);
          e = normalize_lon_point (w + ZONE_WIDTH_DEG)
      in \<lparr>zone = z, west = w, east = e\<rparr>)"

definition build_zone_intervals :: "real \<Rightarrow> ZoneInterval list" where
  "build_zone_intervals east_boundary_zone9 =
     (let origin = zone_origin east_boundary_zone9
      in map (zone_at origin) [0 .. 9])"

text \<open>The local variable \<open>steps_east\<close> of \<open>lon_to_zone_interval\<close>.\<close>

definition steps_east_of :: "real \<Rightarrow> real \<Rightarrow> int" where
  "steps_east_of lon east_boundary_zone9 =
     (let lon_n = normalize_lon_point lon;
          origin = zone_origin east_boundary_zone9;
          diff = py_mod (lon_n - origin) 360
      in \<lfloor>diff / ZONE_WIDTH_DEG\<rfloor>)"

definition lon_to_zone_interval :: "real \<Rightarrow> real \<Rightarrow> ZoneInterval" where
  "lon_to_zone_interval lon east_boundary_zone9 =
     zone_at (zone_origin east_boundary_zone9) (steps_east_of lon east_boundary_zone9)"

subsection \<open>Exact layer: ranges\<close>

definition split_range :: "real \<Rightarrow> real \<Rightarrow> (real \<times> real) list" where
  "split_range west_in east_in =
     (let w = normalize_lon_edge west_in;
          e = normalize_lon_edge east_in
      in if w \<le> e then [(w, e)] else [(w, 180), (- 180, e)])"

definition ranges_intersect :: "real \<times> real \<Rightarrow> real \<times> real \<Rightarrow> bool" where
  "ranges_intersect a b = (fst a < snd b \<and> fst b < snd a)"

text \<open>
  The nested loops with \<open>break\<close> set \<open>hit\<close> exactly when some pair of segments
  intersects; \<open>covered.sort(key = zone)\<close> is a stable sort.
\<close>

definition zone_hit :: "(real \<times> real) list \<Rightarrow> ZoneInterval \<Rightarrow> bool" where
  "zone_hit parts zi =
     (let zi_parts = split_range (west zi) (east zi)
      in list_ex (\<lambda>p. list_ex (\<lambda>zp. ranges_intersect p zp) zi_parts) parts)"

definition zones_covered_by_lon_range :: "real \<Rightarrow> real \<Rightarrow> real \<Rightarrow> ZoneInterval list" where
  "zones_covered_by_lon_range bbox_west bbox_east east_boundary_zone9 =
     (let parts = split_range bbox_west bbox_east;
          intervals = build_zone_intervals east_boundary_zone9;
          covered = filter (zone_hit parts) intervals
      in sort_key zone covered)"

text \<open>
  A point \<open>p\<close> lies in the half-open arc of a zone interval, taken eastward modulo 360.
\<close>

definition arc_contains :: "ZoneInterval \<Rightarrow> real \<Rightarrow> bool" where
  "arc_contains zi p = (py_mod (p - west zi) 360 < py_mod (east zi - west zi) 360)"

text \<open>A point lies on a zone boundary when it is the west edge of some zone interval.\<close>

definition on_zone_boundary :: "real \<Rightarrow> real \<Rightarrow> bool" where
  "on_zone_boundary lon east_boundary_zone9 =
     list_ex (\<lambda>zi. west zi = normalize_lon_point lon)
       (build_zone_intervals east_boundary_zone9)"

subsection \<open>Binary64 layer: rounding\<close>

text \<open>
  A finite double is a real number with at most 53 significant bits. \<open>b64\<close> rounds a
  real to the nearest double, ties to the even significand, as every IEEE 754 operation
  of CPython does. \<open>binade a\<close> is the exponent \<open>e\<close> with \<open>2^e \<le> a < 2^(e+1)\<close>;
  below \<open>2^-1022\<close> the spacing stays that of the subnormal numbers. Results beyond the
  largest finite double (overflow to an infinity) are outside this layer.
\<close>

fun ilog2 :: "nat \<Rightarrow> nat" where
  "ilog2 n = (if n < 2 then 0 else Suc (ilog2 (n div 2)))"

declare ilog2.simps [simp del]

definition pow2 :: "int \<Rightarrow> real" where
  "pow2 e = (if 0 \<le> e then 2 ^ nat e else 1 / 2 ^ nat (- e))"

definition binade :: "real \<Rightarrow> int" where
  "binade a =
     (if 1 \<le> a then int (ilog2 (nat \<lfloor>a\<rfloor>))
      else - int (Suc (ilog2 (nat (- \<lfloor>- (1 / a)\<rfloor> - 1)))))"

definition round_half_even :: "real \<Rightarrow> int" where
  "round_half_even q =
     (let f = \<lfloor>q\<rfloor>; r = q - of_int f
      in if r < 1 / 2 then f
         else if 1 / 2 < r then f + 1
         else if even f then f else f + 1)"

definition b64 :: "real \<Rightarrow> real" where
  "b64 x =
     (if x = 0 then 0
      else let e = max (binade \<bar>x\<bar>) (- 1022);
               u = pow2 (e - 52)
           in u * of_int (round_half_even (x / u)))"

text \<open>
  C's \<open>fmod\<close> is exact and has the sign of the dividend. CPython's float \<open>%\<close>
  (\<open>float_rem\<close>) calls it and, when the remainder is not zero and its sign differs
  from the divisor's, adds the divisor: a floating-point addition, which rounds.
\<close>

definition c_fmod :: "real \<Rightarrow> real \<Rightarrow> real" where
  "c_fmod x m = x - m * of_int (if 0 \<le> x / m then \<lfloor>x / m\<rfloor> else - \<lfloor>- (x / m)\<rfloor>)"

definition py_mod_b64 :: "real \<Rightarrow> real \<Rightarrow> real" where
  "py_mod_b64 x m =
     (let r = c_fmod x m
      in if r \<noteq> 0 then (if (m < 0) \<noteq> (r < 0) then b64 (r + m) else r) else 0)"

subsection \<open>Binary64 layer: normalizer and point-to-zone mapping\<close>

definition normalize_lon_edge_b64 :: "real \<Rightarrow> real" where
  "normalize_lon_edge_b64 lon =
     (let x = b64 (py_mod_b64 (b64 (lon + 180)) 360 - 180)
      in if x = - 180 \<and> lon > 0 then 180 else x)"

definition normalize_lon_point_b64 :: "real \<Rightarrow> real" where
  "normalize_lon_point_b64 lon =
     (let x = normalize_lon_edge_b64 lon
      in if x = 180 then - 180 else x)"

definition zone_origin_b64 :: "real \<Rightarrow> real" where
  "zone_origin_b64 east_boundary_zone9 =
     (let east_b = normalize_lon_point_b64 east_boundary_zone9
      in normalize_lon_point_b64 (b64 (east_b - ZONE_WIDTH_DEG)))"

definition zone_at_b64 :: "real \<Rightarrow> int \<Rightarrow> ZoneInterval" where
  "zone_at_b64 origin steps_east =
     (let z = (9 - steps_east) mod 10;
          w = normalize_lon_point_b64 (b64 (origin + b64 (of_int steps_east * ZONE_WIDTH_DEG)));
          e = normalize_lon_point_b64 (b64 (w + ZONE_WIDTH_DEG))
      in \<lparr>zone = z, west = w, east = e\<rparr>)"

definition build_zone_intervals_b64 :: "real \<Rightarrow> ZoneInterval list" where
  "build_zone_intervals_b64 east_boundary_zone9 =
     (let origin = zone_origin_b64 east_boundary_zone9
      in map (zone_at_b64 origin) [0 .. 9])"

definition steps_east_of_b64 :: "real \<Rightarrow> real \<Rightarrow> int" where
  "steps_east_of_b64 lon east_boundary_zone9 =
     (let lon_n = normalize_lon_point_b64 lon;
          origin = zone_origin_b64 east_boundary_zone9;
          diff = py_mod_b64 (b64 (lon_n - origin)) 360
      in \<lfloor>b64 (diff / ZONE_WIDTH_DEG)\<rfloor>)"

definition lon_to_zone_interval_b64 :: "real \<Rightarrow> real \<Rightarrow> ZoneInterval" where
  "lon_to_zone_interval_b64 lon east_boundary_zone9 =
     zone_at_b64 (zone_origin_b64 east_boundary_zone9)
       (steps_east_of_b64 lon east_boundary_zone9)"

subsection \<open>Binary64 layer: covering interval and ranges\<close>





definition split_range_b64 :: "real \<Rightarrow> real \<Rightarrow> (real \<times> real) list" where
  "split_range_b64 west_in east_in =
     (let w = normalize_lon_edge_b64 west_in;
          e = normalize_lon_edge_b64 east_in
      in if w \<le> e then [(w, e)] else [(w, 180), (- 180, e)])"

definition zone_hit_b64 :: "(real \<times> real) list \<Rightarrow> ZoneInterval \<Rightarrow> bool" where
  "zone_hit_b64 parts zi =
     (let zi_parts = split_range_b64 (west zi) (east zi)
      in list_ex (\<lambda>p. list_ex (\<lambda>zp. ranges_intersect p zp) zi_parts) parts)"

definition zones_covered_by_lon_range_b64 :: "real \<Rightarrow> real \<Rightarrow> real \<Rightarrow> ZoneInterval list" where
  "zones_covered_by_lon_range_b64 bbox_west bbox_east east_boundary_zone9 =
     (let parts = split_range_b64 bbox_west bbox_east;
          intervals = build_zone_intervals_b64 east_boundary_zone9;
          covered = filter (zone_hit_b64 parts) intervals
      in sort_key zone covered)"

subsection \<open>Layer of special values\<close>

text \<open>
  A Python float is a finite number, an infinity or NaN. Finite arithmetic is that of the
  exact layer. Every comparison with NaN is false; \<open>inf % 360.0\<close> is NaN (CPython
  returns what C's \<open>fmod\<close> returns, without raising); \<open>math.floor\<close> raises
  \<open>ValueError\<close> on NaN and \<open>OverflowError\<close> on an infinity.
\<close>

datatype pyfloat = Fin real | PInf | NInf | NaN

datatype py_error = ValueError | OverflowError

fun add_x :: "pyfloat \<Rightarrow> pyfloat \<Rightarrow> pyfloat" where
  "add_x NaN _ = NaN"
| "add_x _ NaN = NaN"
| "add_x (Fin a) (Fin b) = Fin (a + b)"
| "add_x PInf NInf = NaN"
| "add_x NInf PInf = NaN"
| "add_x PInf _ = PInf"
| "add_x NInf _ = NInf"
| "add_x (Fin a) PInf = PInf"
| "add_x (Fin a) NInf = NInf"

fun neg_x :: "pyfloat \<Rightarrow> pyfloat" where
  "neg_x (Fin a) = Fin (- a)"
| "neg_x PInf = NInf"
| "neg_x NInf = PInf"
| "neg_x NaN = NaN"

definition sub_x :: "pyfloat \<Rightarrow> pyfloat \<Rightarrow> pyfloat" where
  "sub_x a b = add_x a (neg_x b)"

text \<open>The operation \<open>x % 360.0\<close>.\<close>

fun mod360_x :: "pyfloat \<Rightarrow> pyfloat" where
  "mod360_x (Fin a) = Fin (py_mod a 360)"
| "mod360_x _ = NaN"

text \<open>The operation \<open>x / 36.0\<close>.\<close>

fun div36_x :: "pyfloat \<Rightarrow> pyfloat" where
  "div36_x (Fin a) = Fin (a / 36)"
| "div36_x v = v"

fun eq_x :: "pyfloat \<Rightarrow> pyfloat \<Rightarrow> bool" where
  "eq_x (Fin a) (Fin b) = (a = b)"
| "eq_x PInf PInf = True"
| "eq_x NInf NInf = True"
| "eq_x _ _ = False"

fun gt_x :: "pyfloat \<Rightarrow> pyfloat \<Rightarrow> bool" where
  "gt_x (Fin a) (Fin b) = (a > b)"
| "gt_x NaN _ = False"
| "gt_x _ NaN = False"
| "gt_x NInf _ = False"
| "gt_x PInf PInf = False"
| "gt_x PInf _ = True"
| "gt_x (Fin a) PInf = False"
| "gt_x (Fin a) NInf = True"

fun floor_x :: "pyfloat \<Rightarrow> py_error + int" where
  "floor_x (Fin a) = Inr \<lfloor>a\<rfloor>"
| "floor_x NaN = Inl ValueError"
| "floor_x _ = Inl OverflowError"

text \<open>
  The two normalizers contain no \<open>raise\<close> and call nothing that raises: every path
  returns a float.
\<close>

definition normalize_lon_edge_x :: "pyfloat \<Rightarrow> py_error + pyfloat" where
  "normalize_lon_edge_x lon =
     (let x = sub_x (mod360_x (add_x lon (Fin 180))) (Fin 180)
      in if eq_x x (Fin (- 180)) \<and> gt_x lon (Fin 0) then Inr (Fin 180) else Inr x)"

definition normalize_lon_point_x :: "pyfloat \<Rightarrow> py_error + pyfloat" where
  "normalize_lon_point_x lon =
     (case normalize_lon_edge_x lon of
        Inl err \<Rightarrow> Inl err
      | Inr x \<Rightarrow> if eq_x x (Fin 180) then Inr (Fin (- 180)) else Inr x)"

text \<open>
  \<open>lon_to_zone_interval\<close> up to \<open>steps_east\<close>: the only statement that can raise
  is \<open>math.floor\<close>.
\<close>

definition steps_east_of_x :: "pyfloat \<Rightarrow> pyfloat \<Rightarrow> py_error + int" where
  "steps_east_of_x lon east_boundary_zone9 =
     (case normalize_lon_point_x lon of
        Inl err \<Rightarrow> Inl err
      | Inr lon_n \<Rightarrow>
     (case normalize_lon_point_x east_boundary_zone9 of
        Inl err \<Rightarrow> Inl err
      | Inr east_b \<Rightarrow>
     (case normalize_lon_point_x (sub_x east_b (Fin ZONE_WIDTH_DEG)) of
        Inl err \<Rightarrow> Inl err
      | Inr origin \<Rightarrow>
          let diff = mod360_x (sub_x lon_n origin)
          in floor_x (div36_x diff))))"

section \<open>The exact layer\<close>

subsection \<open>Python's modulo and the normalizer\<close>

lemma py_mod_360_range: "0 \<le> py_mod x 360 \<and> py_mod x 360 < 360"
proof -
  have "of_int \<lfloor>x / 360\<rfloor> \<le> x / 360" and "x / 360 < of_int \<lfloor>x / 360\<rfloor> + 1"
    by linarith+
  then show ?thesis
    unfolding py_mod_def by (simp add: field_simps)
qed

lemma py_mod_360_id: "0 \<le> x \<Longrightarrow> x < 360 \<Longrightarrow> py_mod x 360 = x"
proof -
  assume "0 \<le> x" and "x < 360"
  then have "\<lfloor>x / 360\<rfloor> = 0"
    by (simp add: floor_eq_iff)
  then show ?thesis
    by (simp add: py_mod_def)
qed

lemma py_mod_360_shift: "py_mod (x + 360 * of_int k) 360 = py_mod x 360"
proof -
  have h: "(x + 360 * of_int k) / 360 = x / 360 + of_int k"
    by (simp add: field_simps)
  have "\<lfloor>(x + 360 * of_int k) / 360\<rfloor> = \<lfloor>x / 360\<rfloor> + k"
    unfolding h by linarith
  then show ?thesis
    unfolding py_mod_def by (simp add: algebra_simps)
qed

lemma py_mod_360_unique:
  "0 \<le> r \<Longrightarrow> r < 360 \<Longrightarrow> x = r + 360 * of_int k \<Longrightarrow> py_mod x 360 = r"
  using py_mod_360_shift [of r k] py_mod_360_id [of r] by simp

lemma py_mod_360_rep: "\<exists>k::int. py_mod x 360 = x + 360 * of_int k"
proof
  show "py_mod x 360 = x + 360 * of_int (- \<lfloor>x / 360\<rfloor>)"
    by (simp add: py_mod_def)
qed

lemma py_mod_360_wrap: "- 360 \<le> x \<Longrightarrow> x < 0 \<Longrightarrow> py_mod x 360 = x + 360"
  using py_mod_360_unique [of "x + 360" x "- 1"] by simp

lemma py_mod_360_cong:
  "x = y + 360 * of_int k \<Longrightarrow> py_mod x 360 = py_mod y 360"
  using py_mod_360_shift [of y k] by simp

lemma normalize_lon_point_eq: "normalize_lon_point lon = py_mod (lon + 180) 360 - 180"
proof -
  have "py_mod (lon + 180) 360 < 360"
    using py_mod_360_range by blast
  then show ?thesis
    by (simp add: normalize_lon_point_def normalize_lon_edge_def Let_def)
qed

lemma normalize_lon_point_range:
  "- 180 \<le> normalize_lon_point lon \<and> normalize_lon_point lon < 180"
  using py_mod_360_range [of "lon + 180"] by (simp add: normalize_lon_point_eq)

lemma normalize_lon_point_id:
  "- 180 \<le> x \<Longrightarrow> x < 180 \<Longrightarrow> normalize_lon_point x = x"
  using py_mod_360_id [of "x + 180"] by (simp add: normalize_lon_point_eq)

lemma normalize_lon_point_rep: "\<exists>k::int. normalize_lon_point x = x + 360 * of_int k"
proof -
  obtain k :: int where "py_mod (x + 180) 360 = x + 180 + 360 * of_int k"
    using py_mod_360_rep by blast
  then have "normalize_lon_point x = x + 360 * of_int k"
    by (simp add: normalize_lon_point_eq)
  then show ?thesis ..
qed

lemma normalize_lon_point_unique:
  "- 180 \<le> r \<Longrightarrow> r < 180 \<Longrightarrow> x = r + 360 * of_int k \<Longrightarrow> normalize_lon_point x = r"
  using py_mod_360_unique [of "r + 180" "x + 180" k] by (simp add: normalize_lon_point_eq)

lemma in_class_180_iff: "in_class_180 x \<longleftrightarrow> py_mod (x + 180) 360 = 0"
  using py_mod_360_shift [of "x - 180" 1]
  by (simp add: in_class_180_def add.commute)

lemma normalize_lon_edge_cases:
  "normalize_lon_edge x = (if in_class_180 x \<and> x > 0 then 180 else normalize_lon_point x)"
  using py_mod_360_range [of "x + 180"]
  by (auto simp: in_class_180_iff normalize_lon_point_eq normalize_lon_edge_def Let_def)

lemma normalize_lon_edge_id:
  "- 180 \<le> x \<Longrightarrow> x \<le> 180 \<Longrightarrow> normalize_lon_edge x = x"
proof (cases "x = 180")
  case True
  have "py_mod (180 + 180) 360 = 0"
    using py_mod_360_unique [of 0 360 1] by simp
  then show ?thesis
    using True by (simp add: normalize_lon_edge_def Let_def)
next
  case False
  assume "- 180 \<le> x" "x \<le> 180"
  with False have a: "- 180 \<le> x" "x < 180" by auto
  then have "py_mod (x + 180) 360 = x + 180"
    using py_mod_360_id [of "x + 180"] by simp
  then show ?thesis
    using a by (simp add: normalize_lon_edge_def Let_def)
qed

lemma normalize_lon_edge_range: "- 180 \<le> normalize_lon_edge x \<and> normalize_lon_edge x \<le> 180"
  using normalize_lon_point_range [of x] by (simp add: normalize_lon_edge_cases)

lemma normalize_lon_edge_inner:
  "normalize_lon_edge x \<noteq> 180 \<Longrightarrow> normalize_lon_point x = normalize_lon_edge x"
  by (simp add: normalize_lon_point_def Let_def)

lemma in_class_180_ex: "in_class_180 x \<longleftrightarrow> (\<exists>k::int. x = 180 + 360 * of_int k)"
proof
  assume "in_class_180 x"
  then have "x = 180 + 360 * of_int \<lfloor>(x - 180) / 360\<rfloor>"
    by (simp add: in_class_180_def py_mod_def)
  then show "\<exists>k::int. x = 180 + 360 * of_int k" ..
next
  assume "\<exists>k::int. x = 180 + 360 * of_int k"
  then obtain k :: int where "x = 180 + 360 * of_int k" ..
  then show "in_class_180 x"
    using py_mod_360_unique [of 0 "x - 180" k] by (simp add: in_class_180_def)
qed

lemma class_180_sign:
  fixes k :: int
  assumes "x = 180 + 360 * real_of_int k"
  shows "0 < x \<longleftrightarrow> 0 \<le> k"
proof
  assume "0 < x"
  then have "real_of_int (- 1) < real_of_int k"
    using assms by simp
  then have "- 1 < k"
    by (simp only: of_int_less_iff)
  then show "0 \<le> k" by simp
next
  assume "0 \<le> k"
  then have "0 \<le> real_of_int k" by simp
  then show "0 < x" using assms by simp
qed

lemma normalize_lon_edge_180_iff:
  "normalize_lon_edge x = 180 \<longleftrightarrow> in_class_180 x \<and> 0 < x"
  using normalize_lon_point_range [of x] by (auto simp: normalize_lon_edge_cases)

lemma normalize_lon_edge_m180_iff:
  "normalize_lon_edge x = - 180 \<longleftrightarrow> in_class_180 x \<and> x \<le> 0"
  by (auto simp: normalize_lon_edge_cases normalize_lon_point_eq in_class_180_iff)

text \<open>
  In exact arithmetic the result is \<open>+180\<close> exactly for the members \<open>180 + 360 k\<close>,
  \<open>k \<ge> 0\<close>, of the class of the meridian 180, and \<open>-180\<close> exactly for the members
  with \<open>k < 0\<close>.
\<close>

lemma normalize_lon_edge_exact_contract:
  "- 180 \<le> normalize_lon_edge x \<and> normalize_lon_edge x \<le> 180
   \<and> (normalize_lon_edge x = 180 \<longleftrightarrow> (\<exists>k::int. 0 \<le> k \<and> x = 180 + 360 * of_int k))
   \<and> (normalize_lon_edge x = - 180 \<longleftrightarrow> (\<exists>k::int. k < 0 \<and> x = 180 + 360 * of_int k))"
proof -
  have "in_class_180 x \<and> 0 < x \<longleftrightarrow> (\<exists>k::int. 0 \<le> k \<and> x = 180 + 360 * of_int k)"
    using class_180_sign [of x] by (auto simp: in_class_180_ex)
  moreover have "in_class_180 x \<and> x \<le> 0 \<longleftrightarrow> (\<exists>k::int. k < 0 \<and> x = 180 + 360 * of_int k)"
    using class_180_sign [of x] by (auto simp: in_class_180_ex simp flip: not_less)
  ultimately show ?thesis
    using normalize_lon_edge_range [of x]
    by (simp only: normalize_lon_edge_180_iff normalize_lon_edge_m180_iff)
qed

text \<open>
  Claim C10. \<open>normalize_lon_point\<close> is idempotent: it is the identity on every value
  it returns.
\<close>

theorem normalize_lon_point_idempotent:
  "normalize_lon_point (normalize_lon_point x) = normalize_lon_point x"
  using normalize_lon_point_range [of x] by (intro normalize_lon_point_id) auto

subsection \<open>Minimal covering interval\<close>

lemma lon360_to_edge_rep: "\<exists>k::int. lon360_to_edge (lon_to_360 p) = p + 360 * of_int k"
proof -
  obtain j :: int where j: "py_mod p 360 = p + 360 * of_int j"
    using py_mod_360_rep by blast
  show ?thesis
  proof (cases "py_mod p 360 > 180")
    case True
    then have "lon360_to_edge (lon_to_360 p) = p + 360 * of_int (j - 1)"
      using j by (simp add: lon360_to_edge_def lon_to_360_def Let_def)
    then show ?thesis ..
  next
    case False
    then have "lon360_to_edge (lon_to_360 p) = p + 360 * of_int j"
      using j py_mod_360_range [of p] by (simp add: lon360_to_edge_def lon_to_360_def Let_def)
    then show ?thesis ..
  qed
qed

lemma lon360_to_edge_range:
  "- 180 < lon360_to_edge (lon_to_360 p) \<and> lon360_to_edge (lon_to_360 p) \<le> 180"
  using py_mod_360_range [of p] by (auto simp: lon360_to_edge_def lon_to_360_def Let_def)

lemma lon360_to_edge_id:
  assumes "- 180 < p" "p \<le> 180"
  shows "lon360_to_edge (lon_to_360 p) = p"
proof (cases "0 \<le> p")
  case True
  then have "py_mod p 360 = p"
    using assms by (intro py_mod_360_id) auto
  then show ?thesis
    using assms by (simp add: lon360_to_edge_def lon_to_360_def Let_def)
next
  case False
  then have "py_mod p 360 = p + 360"
    using assms by (intro py_mod_360_wrap) auto
  then show ?thesis
    using assms False by (simp add: lon360_to_edge_def lon_to_360_def Let_def)
qed

lemma lon360_to_edge_normalize:
  "lon360_to_edge (lon_to_360 p) =
     (if normalize_lon_edge p = - 180 then 180 else normalize_lon_edge p)"
proof -
  let ?e = "lon360_to_edge (lon_to_360 p)"
  obtain k :: int where k: "?e = p + 360 * of_int k"
    using lon360_to_edge_rep by blast
  have r: "- 180 < ?e" "?e \<le> 180"
    using lon360_to_edge_range by auto
  show ?thesis
  proof (cases "in_class_180 p")
    case True
    then obtain j :: int where "p = 180 + 360 * of_int j"
      by (auto simp: in_class_180_ex)
    then have "?e = 180 + 360 * of_int (j + k)"
      using k by simp
    then have "real_of_int (j + k) * 360 = ?e - 180"
      by simp
    then have "- 360 < real_of_int (j + k) * 360" "real_of_int (j + k) * 360 \<le> 0"
      using r by auto
    then have "real_of_int (- 1) < real_of_int (j + k)" "real_of_int (j + k) \<le> real_of_int 0"
      by auto
    then have "- 1 < j + k" "j + k \<le> 0"
      by (simp_all only: of_int_less_iff of_int_le_iff)
    then have "j + k = 0" by simp
    then have "?e = 180"
      using \<open>?e = 180 + 360 * of_int (j + k)\<close> by simp
    then show ?thesis
      using True by (auto simp: normalize_lon_edge_cases normalize_lon_point_eq in_class_180_iff)
  next
    case False
    then have ne: "?e \<noteq> 180"
      using k in_class_180_ex [of p]
      by (metis add.commute add_diff_cancel_left' diff_add_cancel mult_minus_right of_int_minus
          add_uminus_conv_diff)
    have "normalize_lon_point p = ?e"
      using r ne k by (intro normalize_lon_point_unique [where k = "- k"]) auto
    moreover have "normalize_lon_edge p = normalize_lon_point p"
      using False by (simp add: normalize_lon_edge_cases)
    ultimately show ?thesis
      using r by simp
  qed
qed

text \<open>
  In exact arithmetic the covering interval of a single point \<open>p\<close> is \<open>(w, w)\<close> with
  \<open>w\<close> in \<open>(-180, 180]\<close> congruent to \<open>p\<close> modulo 360.
\<close>

lemma cover_single_point_exact:
  "circular_min_cover_interval [p]
     = Some (lon360_to_edge (lon_to_360 p), lon360_to_edge (lon_to_360 p))
   \<and> - 180 < lon360_to_edge (lon_to_360 p) \<and> lon360_to_edge (lon_to_360 p) \<le> 180
   \<and> (\<exists>k::int. lon360_to_edge (lon_to_360 p) = p + 360 * of_int k)
   \<and> lon360_to_edge (lon_to_360 p)
       = (if normalize_lon_edge p = - 180 then 180 else normalize_lon_edge p)
   \<and> (- 180 < p \<and> p \<le> 180 \<longrightarrow> circular_min_cover_interval [p] = Some (p, p))"
proof -
  have c: "circular_min_cover_interval [p]
     = Some (lon360_to_edge (lon_to_360 p), lon360_to_edge (lon_to_360 p))"
    by (simp add: circular_min_cover_interval_def Let_def)
  show ?thesis
    using c lon360_to_edge_range [of p] lon360_to_edge_rep [of p]
      lon360_to_edge_normalize [of p] lon360_to_edge_id [of p]
    by simp
qed

text \<open>
  Claim C6. For the points 10, 20 and 350 the scan finds the largest gap, 330 degrees, at
  index 1 (from 20 to 350); the result is its complement, from the edge form \<open>-10\<close> of
  350 eastward to 20, an arc of 30 degrees.
\<close>

theorem cover_three_points:
  "circular_min_cover_interval [10, 20, 350] = Some (- 10, 20)
   \<and> gap_scan (sort (map lon_to_360 [10, 20, 350])) [0 ..< 3] (- 1, 0) = (330, 1)
   \<and> lon360_to_edge (lon_to_360 350) = - 10
   \<and> py_mod (20 - (- 10)) 360 = 30"
  by (simp add: circular_min_cover_interval_def lon_to_360_def lon360_to_edge_def py_mod_def upt_rec)

subsection \<open>Splitting a range at the seam\<close>

lemma split_range_shape:
  "split_range w0 e0 =
     (if normalize_lon_edge w0 \<le> normalize_lon_edge e0
      then [(normalize_lon_edge w0, normalize_lon_edge e0)]
      else [(normalize_lon_edge w0, 180), (- 180, normalize_lon_edge e0)])"
  by (simp add: split_range_def Let_def)

lemma split_range_degenerate:
  "split_range lon lon = [(normalize_lon_edge lon, normalize_lon_edge lon)]"
  by (simp add: split_range_def Let_def)

lemma split_range_segments_strict:
  assumes "normalize_lon_edge w0 \<noteq> normalize_lon_edge e0"
    and "normalize_lon_edge w0 \<noteq> 180" and "normalize_lon_edge e0 \<noteq> - 180"
  shows "list_all (\<lambda>(a, b). a < b) (split_range w0 e0)"
  using assms normalize_lon_edge_range [of w0] normalize_lon_edge_range [of e0]
  by (auto simp: split_range_shape)

text \<open>
  Claim C5. \<open>split_range\<close> returns the single segment \<open>(w, e)\<close> when \<open>w \<le> e\<close> and
  the two segments \<open>(w, 180)\<close> and \<open>(-180, e)\<close> otherwise (lemma \<open>split_range_shape\<close>),
  but not every segment of a split range satisfies \<open>a < b\<close>, as the docstring of the
  source promises: for west 180 and east 0 the first segment is \<open>(180, 180)\<close>. The
  segments are strict when \<open>w \<noteq> e\<close>, \<open>w \<noteq> 180\<close> and \<open>e \<noteq> -180\<close>
  (lemma \<open>split_range_segments_strict\<close>).
\<close>

theorem split_range_degenerate_segment:
  "split_range 180 0 = [(180, 180), (- 180, 0)]
   \<and> \<not> list_all (\<lambda>(a, b). a < b) (split_range 180 0)"
  by (simp add: split_range_def normalize_lon_edge_def py_mod_def)

subsection \<open>The ten zones tile the circle\<close>

lemma steps_floor_range:
  assumes "0 \<le> d" and "d < 360"
  shows "0 \<le> \<lfloor>d / 36 :: real\<rfloor> \<and> \<lfloor>d / 36\<rfloor> \<le> 9"
proof -
  have "0 \<le> d / 36" and "d / 36 < 10"
    using assms by simp_all
  then show ?thesis
    by (simp add: floor_less_iff le_floor_iff flip: less_Suc_eq_le)
qed

lemma steps_east_of_range: "0 \<le> steps_east_of lon b \<and> steps_east_of lon b \<le> 9"
  using steps_floor_range [OF conjunct1 [OF py_mod_360_range] conjunct2 [OF py_mod_360_range]]
  by (simp add: steps_east_of_def ZONE_WIDTH_DEG_def Let_def)

lemma zone_at_west_rep: "\<exists>k::int. west (zone_at origin s) = origin + 36 * of_int s + 360 * of_int k"
  using normalize_lon_point_rep [of "origin + of_int s * 36"]
  by (simp add: zone_at_def ZONE_WIDTH_DEG_def Let_def mult.commute)

lemma zone_at_east: "east (zone_at origin s) = normalize_lon_point (west (zone_at origin s) + 36)"
  by (simp add: zone_at_def ZONE_WIDTH_DEG_def Let_def)

lemma zone_at_west_range:
  "- 180 \<le> west (zone_at origin s) \<and> west (zone_at origin s) < 180"
  by (simp add: zone_at_def Let_def normalize_lon_point_range)

lemma zone_at_width: "py_mod (east (zone_at origin s) - west (zone_at origin s)) 360 = 36"
proof -
  obtain k :: int where
    "normalize_lon_point (west (zone_at origin s) + 36) = west (zone_at origin s) + 36 + 360 * of_int k"
    using normalize_lon_point_rep by blast
  then have "east (zone_at origin s) - west (zone_at origin s) = 36 + 360 * of_int k"
    by (simp add: zone_at_east)
  then show ?thesis
    using py_mod_360_unique [of 36 _ k] by simp
qed

lemma zone_at_offset:
  "py_mod (p - west (zone_at origin s)) 360 = py_mod (py_mod (p - origin) 360 - 36 * of_int s) 360"
proof -
  obtain k :: int where k: "west (zone_at origin s) = origin + 36 * of_int s + 360 * of_int k"
    using zone_at_west_rep by blast
  obtain j :: int where j: "py_mod (p - origin) 360 = p - origin + 360 * of_int j"
    using py_mod_360_rep by blast
  have "p - west (zone_at origin s) = py_mod (p - origin) 360 - 36 * of_int s + 360 * of_int (- k - j)"
    by (simp add: k j)
  then show ?thesis
    by (rule py_mod_360_cong)
qed

lemma floor_36_iff:
  "\<lfloor>d / 36 :: real\<rfloor> = s \<longleftrightarrow> 36 * of_int s \<le> d \<and> d < 36 * of_int s + 36"
proof -
  have "of_int s \<le> d / 36 \<longleftrightarrow> 36 * of_int s \<le> d"
    by (simp add: le_divide_eq mult.commute)
  moreover have "d / 36 < of_int s + 1 \<longleftrightarrow> d < 36 * of_int s + 36"
    by (simp add: divide_less_eq algebra_simps)
  ultimately show ?thesis
    by (simp only: floor_eq_iff)
qed

lemma offset_lt_36_iff:
  assumes d: "0 \<le> d" "d < 360" and s: "0 \<le> s" "s \<le> 9"
  shows "py_mod (d - 36 * of_int s) 360 < 36 \<longleftrightarrow> \<lfloor>d / 36\<rfloor> = s"
proof (cases "36 * of_int s \<le> d")
  case True
  have "of_int s \<ge> (0::real)" using s by simp
  then have eq: "py_mod (d - 36 * of_int s) 360 = d - 36 * of_int s"
    using True d by (intro py_mod_360_id) linarith+
  show ?thesis
    unfolding eq floor_36_iff using True by linarith
next
  case False
  have s9: "of_int s \<le> (9::real)" using s by simp
  then have eq: "py_mod (d - 36 * of_int s) 360 = d - 36 * of_int s + 360"
    using False d by (intro py_mod_360_wrap) linarith+
  show ?thesis
    unfolding eq floor_36_iff using False s9 d by linarith
qed

lemma arc_contains_zone_at:
  assumes "0 \<le> s" "s \<le> 9"
  shows "arc_contains (zone_at (zone_origin b) s) (normalize_lon_point lon)
           \<longleftrightarrow> steps_east_of lon b = s"
proof -
  let ?d = "py_mod (normalize_lon_point lon - zone_origin b) 360"
  have "arc_contains (zone_at (zone_origin b) s) (normalize_lon_point lon)
          \<longleftrightarrow> py_mod (?d - 36 * of_int s) 360 < 36"
    unfolding arc_contains_def zone_at_width by (simp only: zone_at_offset)
  also have "\<dots> \<longleftrightarrow> \<lfloor>?d / 36\<rfloor> = s"
    using py_mod_360_range assms by (intro offset_lt_36_iff) auto
  finally show ?thesis
    by (simp add: steps_east_of_def ZONE_WIDTH_DEG_def Let_def)
qed

lemma set_build_zone_intervals:
  "set (build_zone_intervals b) = zone_at (zone_origin b) ` {0 .. 9}"
  by (simp add: build_zone_intervals_def Let_def)

lemma zones_of_build_zone_intervals:
  "map zone (build_zone_intervals b) = [9, 8, 7, 6, 5, 4, 3, 2, 1, 0]"
  by (simp add: build_zone_intervals_def zone_at_def Let_def upto.simps)

lemma distinct_build_zone_intervals: "distinct (build_zone_intervals b)"
proof -
  have "distinct (map zone (build_zone_intervals b))"
    by (simp add: zones_of_build_zone_intervals)
  then show ?thesis
    by (rule distinct_map [THEN iffD1, THEN conjunct1])
qed

text \<open>
  In exact arithmetic \<open>build_zone_intervals\<close> returns ten intervals, and the interval
  that \<open>lon_to_zone_interval\<close> returns is the one and only entry whose half-open arc
  contains the normalized point.
\<close>

lemma zone_tiling:
  "length (build_zone_intervals b) = 10
   \<and> lon_to_zone_interval lon b \<in> set (build_zone_intervals b)
   \<and> arc_contains (lon_to_zone_interval lon b) (normalize_lon_point lon)
   \<and> (\<forall>zi \<in> set (build_zone_intervals b).
        arc_contains zi (normalize_lon_point lon) \<longrightarrow> zi = lon_to_zone_interval lon b)"
proof (intro conjI ballI impI)
  show "length (build_zone_intervals b) = 10"
    by (simp add: build_zone_intervals_def Let_def)
  show "lon_to_zone_interval lon b \<in> set (build_zone_intervals b)"
    using steps_east_of_range [of lon b]
    by (simp add: set_build_zone_intervals lon_to_zone_interval_def)
  show "arc_contains (lon_to_zone_interval lon b) (normalize_lon_point lon)"
    using steps_east_of_range [of lon b] arc_contains_zone_at [of "steps_east_of lon b" b lon]
    by (simp add: lon_to_zone_interval_def)
next
  fix zi
  assume "zi \<in> set (build_zone_intervals b)"
    and c: "arc_contains zi (normalize_lon_point lon)"
  then obtain s where s: "0 \<le> s" "s \<le> 9" and zi: "zi = zone_at (zone_origin b) s"
    by (auto simp: set_build_zone_intervals)
  then have "steps_east_of lon b = s"
    using c arc_contains_zone_at by blast
  then show "zi = lon_to_zone_interval lon b"
    by (simp add: zi lon_to_zone_interval_def)
qed

subsection \<open>Degenerate query ranges\<close>

lemma split_range_zone_at:
  "split_range (west (zone_at origin s)) (east (zone_at origin s)) =
     (if west (zone_at origin s) + 36 < 180
      then [(west (zone_at origin s), west (zone_at origin s) + 36)]
      else [(west (zone_at origin s), 180), (- 180, west (zone_at origin s) - 324)])"
proof -
  let ?w = "west (zone_at origin s)"
  have r: "- 180 \<le> ?w" "?w < 180"
    using zone_at_west_range by auto
  have w: "normalize_lon_edge ?w = ?w"
    using r by (intro normalize_lon_edge_id) auto
  show ?thesis
  proof (cases "?w + 36 < 180")
    case True
    then have "east (zone_at origin s) = ?w + 36"
      unfolding zone_at_east using r by (intro normalize_lon_point_id) auto
    moreover have "normalize_lon_edge (?w + 36) = ?w + 36"
      using r True by (intro normalize_lon_edge_id) auto
    ultimately show ?thesis
      using True w by (simp add: split_range_def Let_def)
  next
    case False
    have "normalize_lon_point (?w + 36) = ?w - 324"
      using r False by (intro normalize_lon_point_unique [where k = 1]) auto
    then have e: "east (zone_at origin s) = ?w - 324"
      by (simp add: zone_at_east)
    moreover have "normalize_lon_edge (?w - 324) = ?w - 324"
      using r False by (intro normalize_lon_edge_id) auto
    ultimately show ?thesis
      using False w r by (simp add: split_range_def Let_def)
  qed
qed

lemma zone_hit_point:
  "zone_hit [(w, w)] (zone_at origin s) \<longleftrightarrow>
     (if west (zone_at origin s) + 36 < 180
      then west (zone_at origin s) < w \<and> w < west (zone_at origin s) + 36
      else (west (zone_at origin s) < w \<and> w < 180)
           \<or> (- 180 < w \<and> w < west (zone_at origin s) - 324))"
  unfolding zone_hit_def Let_def split_range_zone_at
  by (auto simp: ranges_intersect_def)

lemma arc_contains_explicit:
  assumes "- 180 \<le> w" "w < 180"
  shows "arc_contains (zone_at origin s) w \<longleftrightarrow>
     (if west (zone_at origin s) + 36 < 180
      then west (zone_at origin s) \<le> w \<and> w < west (zone_at origin s) + 36
      else west (zone_at origin s) \<le> w \<or> w < west (zone_at origin s) - 324)"
proof -
  let ?w = "west (zone_at origin s)"
  have r: "- 180 \<le> ?w" "?w < 180"
    using zone_at_west_range by auto
  have a: "arc_contains (zone_at origin s) w \<longleftrightarrow> py_mod (w - ?w) 360 < 36"
    by (simp add: arc_contains_def zone_at_width)
  show ?thesis
  proof (cases "?w \<le> w")
    case True
    then have "py_mod (w - ?w) 360 = w - ?w"
      using assms r by (intro py_mod_360_id) auto
    then show ?thesis
      using True assms r a by auto
  next
    case False
    then have "py_mod (w - ?w) 360 = w - ?w + 360"
      using assms r by (intro py_mod_360_wrap) auto
    then show ?thesis
      using False assms r a by auto
  qed
qed

lemma zone_hit_iff_arc:
  assumes "- 180 < w" "w < 180"
  shows "zone_hit [(w, w)] (zone_at origin s)
           \<longleftrightarrow> arc_contains (zone_at origin s) w \<and> w \<noteq> west (zone_at origin s)"
  using assms zone_at_west_range [of origin s]
  unfolding zone_hit_point arc_contains_explicit [OF less_imp_le [OF assms(1)] assms(2)]
  by auto

lemma zone_hit_seam:
  assumes "w = 180 \<or> w = - 180"
  shows "\<not> zone_hit [(w, w)] (zone_at origin s)"
  using assms zone_at_west_range [of origin s]
  unfolding zone_hit_point by auto

lemma filter_unique:
  "distinct xs \<Longrightarrow> z \<in> set xs \<Longrightarrow> (\<forall>y \<in> set xs. P y \<longleftrightarrow> y = z) \<Longrightarrow> filter P xs = [z]"
proof (induction xs)
  case Nil
  then show ?case by simp
next
  case (Cons x xs)
  show ?case
  proof (cases "x = z")
    case True
    then have "\<forall>y \<in> set xs. \<not> P y"
      using Cons.prems by auto
    then have "filter P xs = []"
      by (simp add: filter_empty_conv)
    then show ?thesis
      using True Cons.prems by simp
  next
    case False
    then show ?thesis
      using Cons by auto
  qed
qed

lemma on_zone_boundary_iff:
  "on_zone_boundary lon b \<longleftrightarrow> normalize_lon_point lon = west (lon_to_zone_interval lon b)"
proof
  assume "on_zone_boundary lon b"
  then obtain zi where zi: "zi \<in> set (build_zone_intervals b)"
    and w: "west zi = normalize_lon_point lon"
    by (auto simp: on_zone_boundary_def list_ex_iff)
  obtain s where "zi = zone_at (zone_origin b) s"
    using zi by (auto simp: set_build_zone_intervals)
  then have "py_mod (east zi - west zi) 360 = 36"
    by (simp add: zone_at_width)
  then have "arc_contains zi (normalize_lon_point lon)"
    using py_mod_360_id [of 0] by (simp add: arc_contains_def w)
  then have "zi = lon_to_zone_interval lon b"
    using zone_tiling zi by blast
  then show "normalize_lon_point lon = west (lon_to_zone_interval lon b)"
    using w by simp
next
  assume "normalize_lon_point lon = west (lon_to_zone_interval lon b)"
  moreover have "lon_to_zone_interval lon b \<in> set (build_zone_intervals b)"
    using zone_tiling by blast
  ultimately show "on_zone_boundary lon b"
    by (auto simp: on_zone_boundary_def list_ex_iff)
qed

text \<open>
  In exact arithmetic a range with west equal to east covers at most one zone: none on
  the seam or on a zone boundary, otherwise the zone of the point.
\<close>

lemma degenerate_range_zones_exact:
  "zones_covered_by_lon_range lon lon b =
     (if normalize_lon_edge lon = 180 \<or> normalize_lon_edge lon = - 180 \<or> on_zone_boundary lon b
      then [] else [lon_to_zone_interval lon b])"
proof -
  let ?w = "normalize_lon_edge lon"
  let ?z = "lon_to_zone_interval lon b"
  have cov: "zones_covered_by_lon_range lon lon b
      = sort_key zone (filter (zone_hit [(?w, ?w)]) (build_zone_intervals b))"
    by (simp add: zones_covered_by_lon_range_def split_range_degenerate Let_def)
  show ?thesis
  proof (cases "?w = 180 \<or> ?w = - 180")
    case True
    then have "\<forall>zi \<in> set (build_zone_intervals b). \<not> zone_hit [(?w, ?w)] zi"
      using zone_hit_seam by (auto simp: set_build_zone_intervals)
    then have "filter (zone_hit [(?w, ?w)]) (build_zone_intervals b) = []"
      by (simp add: filter_empty_conv)
    then show ?thesis
      using True cov by auto
  next
    case False
    then have w: "- 180 < ?w" "?w < 180" and p: "normalize_lon_point lon = ?w"
      using normalize_lon_edge_range [of lon] normalize_lon_edge_inner [of lon] by auto
    have hit: "zone_hit [(?w, ?w)] zi \<longleftrightarrow> arc_contains zi ?w \<and> ?w \<noteq> west zi"
      if "zi \<in> set (build_zone_intervals b)" for zi
      using that zone_hit_iff_arc [OF w] by (auto simp: set_build_zone_intervals)
    have uniq: "arc_contains zi ?w \<longleftrightarrow> zi = ?z"
      if "zi \<in> set (build_zone_intervals b)" for zi
      using that zone_tiling [of b lon] p by auto
    show ?thesis
    proof (cases "on_zone_boundary lon b")
      case True
      then have "?w = west ?z"
        using p by (simp add: on_zone_boundary_iff)
      then have "\<forall>zi \<in> set (build_zone_intervals b). \<not> zone_hit [(?w, ?w)] zi"
        using hit uniq by auto
      then have "filter (zone_hit [(?w, ?w)]) (build_zone_intervals b) = []"
        by (simp add: filter_empty_conv)
      then show ?thesis
        using True cov by simp
    next
      case nb: False
      then have "?w \<noteq> west ?z"
        using p by (simp add: on_zone_boundary_iff)
      then have "\<forall>zi \<in> set (build_zone_intervals b). zone_hit [(?w, ?w)] zi \<longleftrightarrow> zi = ?z"
        using hit uniq by auto
      moreover have "?z \<in> set (build_zone_intervals b)"
        using zone_tiling by blast
      ultimately have "filter (zone_hit [(?w, ?w)]) (build_zone_intervals b) = [?z]"
        using distinct_build_zone_intervals by (intro filter_unique) auto
      then show ?thesis
        using False nb cov by simp
    qed
  qed
qed

lemma degenerate_range_seam_exact:
  "zones_covered_by_lon_range 180 180 LANGFANG_LON_EAST_BOUNDARY = []
   \<and> \<not> on_zone_boundary 180 LANGFANG_LON_EAST_BOUNDARY
   \<and> lon_to_zone_interval 180 LANGFANG_LON_EAST_BOUNDARY
       = \<lparr>zone = 7, west = 1527 / 10, east = - 1713 / 10\<rparr>"
proof -
  have z: "lon_to_zone_interval 180 LANGFANG_LON_EAST_BOUNDARY
       = \<lparr>zone = 7, west = 1527 / 10, east = - 1713 / 10\<rparr>"
    by (simp add: lon_to_zone_interval_def zone_at_def zone_origin_def steps_east_of_def
      normalize_lon_point_eq py_mod_def LANGFANG_LON_EAST_BOUNDARY_def ZONE_WIDTH_DEG_def)
  have p: "normalize_lon_point 180 = - 180"
    by (simp add: normalize_lon_point_eq py_mod_def)
  have b: "\<not> on_zone_boundary 180 LANGFANG_LON_EAST_BOUNDARY"
    unfolding on_zone_boundary_iff z p by simp
  have e: "normalize_lon_edge 180 = 180"
    by (simp add: normalize_lon_edge_def py_mod_def)
  have "\<forall>zi \<in> set (build_zone_intervals LANGFANG_LON_EAST_BOUNDARY). \<not> zone_hit [(180, 180)] zi"
    using zone_hit_seam [of 180] by (auto simp: set_build_zone_intervals)
  then have "filter (zone_hit [(180, 180)]) (build_zone_intervals LANGFANG_LON_EAST_BOUNDARY) = []"
    by (simp add: filter_empty_conv)
  then have "zones_covered_by_lon_range 180 180 LANGFANG_LON_EAST_BOUNDARY = []"
    by (simp add: zones_covered_by_lon_range_def split_range_degenerate e Let_def)
  then show ?thesis
    using z b by simp
qed

section \<open>The binary64 layer\<close>

lemmas b64_eval = b64_def binade_def ilog2.simps pow2_def round_half_even_def Let_def
  c_fmod_def py_mod_b64_def

lemma b64_input: "b64 (- 7036874417766401 / 70368744177664) = - 7036874417766401 / 70368744177664"
  by (simp add: b64_eval)

lemma nlp_b64_input: "normalize_lon_point_b64 (- 7036874417766401 / 70368744177664)
    = - 7036874417766401 / 70368744177664"
  by (simp add: normalize_lon_point_b64_def normalize_lon_edge_b64_def b64_eval)

lemma origin_b64: "zone_origin_b64 (- 64) = - 100"
  by (simp add: zone_origin_b64_def normalize_lon_point_b64_def normalize_lon_edge_b64_def
      ZONE_WIDTH_DEG_def b64_eval)

lemma diff_b64: "py_mod_b64 (b64 (- 7036874417766401 / 70368744177664 - (- 100))) 360 = 360"
  by (simp add: b64_eval)

lemma steps_b64: "steps_east_of_b64 (- 7036874417766401 / 70368744177664) (- 64) = 10"
  unfolding steps_east_of_b64_def nlp_b64_input origin_b64 Let_def diff_b64 ZONE_WIDTH_DEG_def
  by (simp add: b64_eval)

lemma zone_at_b64_10: "zone_at_b64 (- 100) 10 = \<lparr>zone = 9, west = - 100, east = - 64\<rparr>"
  by (simp add: zone_at_b64_def normalize_lon_point_b64_def normalize_lon_edge_b64_def
      ZONE_WIDTH_DEG_def b64_eval)

lemma zone_at_b64_9: "zone_at_b64 (- 100) 9 = \<lparr>zone = 0, west = - 136, east = - 100\<rparr>"
  by (simp add: zone_at_b64_def normalize_lon_point_b64_def normalize_lon_edge_b64_def
      ZONE_WIDTH_DEG_def b64_eval)

text \<open>
  Claim C3. In exact arithmetic \<open>steps_east\<close> is in \<open>0..9\<close> (lemma
  \<open>steps_east_of_range\<close>), as the comment in the source says. With binary64 rounding
  it is not: for the boundary \<open>-64.0\<close> the origin is \<open>-100.0\<close>, and for the double
  \<open>-100 - 2^-46\<close> (printed \<open>-100.00000000000001\<close>) the difference is \<open>-2^-46\<close>;
  Python's \<open>%\<close> adds 360 to it and the sum rounds to \<open>360.0\<close>, so that
  \<open>steps_east\<close> is 10.
\<close>

theorem steps_east_b64_reaches_10:
  "b64 (- 7036874417766401 / 70368744177664) = - 7036874417766401 / 70368744177664
   \<and> b64 (- 64) = - 64
   \<and> py_mod_b64 (b64 (- 7036874417766401 / 70368744177664 - (- 100))) 360 = 360
   \<and> steps_east_of_b64 (- 7036874417766401 / 70368744177664) (- 64) = 10
   \<and> steps_east_of (- 7036874417766401 / 70368744177664) (- 64) = 9"
proof -
  have "b64 (- 64) = - 64"
    by (simp add: b64_eval)
  moreover have "steps_east_of (- 7036874417766401 / 70368744177664) (- 64) = 9"
    by (simp add: steps_east_of_def zone_origin_def normalize_lon_point_eq py_mod_def
        ZONE_WIDTH_DEG_def)
  ultimately show ?thesis
    using b64_input diff_b64 steps_b64 by simp
qed

text \<open>
  Claim C1. In exact arithmetic the claim holds (lemma \<open>zone_tiling\<close>). With binary64
  rounding, at the same input, \<open>lon_to_zone_interval\<close> returns zone 9, the interval
  \<open>[-100, -64)\<close>, which does not contain the point \<open>-100 - 2^-46\<close>; the entry of
  \<open>build_zone_intervals\<close> that contains it is zone 0, \<open>[-136, -100)\<close>.
\<close>

theorem lon_to_zone_interval_b64_misplaces:
  "lon_to_zone_interval_b64 (- 7036874417766401 / 70368744177664) (- 64)
     = \<lparr>zone = 9, west = - 100, east = - 64\<rparr>
   \<and> normalize_lon_point_b64 (- 7036874417766401 / 70368744177664)
     = - 7036874417766401 / 70368744177664
   \<and> \<not> arc_contains \<lparr>zone = 9, west = - 100, east = - 64\<rparr>
         (- 7036874417766401 / 70368744177664)
   \<and> \<lparr>zone = 0, west = - 136, east = - 100\<rparr> \<in> set (build_zone_intervals_b64 (- 64))
   \<and> arc_contains \<lparr>zone = 0, west = - 136, east = - 100\<rparr>
         (- 7036874417766401 / 70368744177664)"
proof -
  have "lon_to_zone_interval_b64 (- 7036874417766401 / 70368744177664) (- 64)
     = \<lparr>zone = 9, west = - 100, east = - 64\<rparr>"
    by (simp only: lon_to_zone_interval_b64_def steps_b64 origin_b64 zone_at_b64_10)
  moreover have "zone_at_b64 (- 100) 9 \<in> set (build_zone_intervals_b64 (- 64))"
    by (simp add: build_zone_intervals_b64_def origin_b64)
  moreover have "\<not> arc_contains \<lparr>zone = 9, west = - 100, east = - 64\<rparr>
         (- 7036874417766401 / 70368744177664)"
    by (simp add: arc_contains_def py_mod_def)
  moreover have "arc_contains \<lparr>zone = 0, west = - 136, east = - 100\<rparr>
         (- 7036874417766401 / 70368744177664)"
    by (simp add: arc_contains_def py_mod_def)
  ultimately show ?thesis
    using nlp_b64_input by (simp add: zone_at_b64_9)
qed

lemma b64_langfang: "b64 (1167 / 10) = 8212032445533389 / 70368744177664"
  by (simp add: b64_eval)

lemma nlp_b64_langfang:
  "normalize_lon_point_b64 (8212032445533389 / 70368744177664) = 2053008111383347 / 17592186044416"
  by (simp add: normalize_lon_point_b64_def normalize_lon_edge_b64_def b64_eval)

lemma origin_b64_langfang:
  "zone_origin_b64 (8212032445533389 / 70368744177664) = 1419689413784371 / 17592186044416"
  unfolding zone_origin_b64_def nlp_b64_langfang Let_def ZONE_WIDTH_DEG_def
  by (simp add: normalize_lon_point_b64_def normalize_lon_edge_b64_def b64_eval)

lemma steps_b64_langfang:
  "steps_east_of_b64 (8212032445533389 / 70368744177664) (8212032445533389 / 70368744177664) = 1"
  unfolding steps_east_of_b64_def nlp_b64_langfang origin_b64_langfang Let_def ZONE_WIDTH_DEG_def
  by (simp add: b64_eval)

lemma zone_at_b64_langfang:
  "zone_at_b64 (1419689413784371 / 17592186044416) 1
     = \<lparr>zone = 8, west = 2053008111383347 / 17592186044416,
         east = 2686326808982323 / 17592186044416\<rparr>"
  by (simp add: zone_at_b64_def normalize_lon_point_b64_def normalize_lon_edge_b64_def
      ZONE_WIDTH_DEG_def b64_eval)

lemma ltzi_b64_langfang:
  "lon_to_zone_interval_b64 (b64 (1167 / 10)) (b64 (1167 / 10))
     = \<lparr>zone = 8, west = 2053008111383347 / 17592186044416,
         east = 2686326808982323 / 17592186044416\<rparr>"
  by (simp only: b64_langfang lon_to_zone_interval_b64_def steps_b64_langfang origin_b64_langfang
      zone_at_b64_langfang)

lemma display_4_decimals:
  "round (2053008111383347 / 17592186044416 * 10000 :: real) = 1167000
   \<and> round (2686326808982323 / 17592186044416 * 10000 :: real) = 1527000"
  by (simp add: round_def)

text \<open>
  Claim C8. With the default boundary 116.7 the point 116.7 is in zone 8, whose interval
  is \<open>[116.7, 152.7)\<close> and does not wrap; zone 9 is \<open>[80.7, 116.7)\<close> and does not
  contain the point. With binary64 rounding the zone is 8 as well, and the two edges
  print as 116.7000 and 152.7000 with four decimals.
\<close>

theorem boundary_point_zone:
  "lon_to_zone_interval (1167 / 10) LANGFANG_LON_EAST_BOUNDARY
     = \<lparr>zone = 8, west = 1167 / 10, east = 1527 / 10\<rparr>
   \<and> split_range (1167 / 10) (1527 / 10) = [(1167 / 10, 1527 / 10)]
   \<and> zone_at (zone_origin LANGFANG_LON_EAST_BOUNDARY) 0
       = \<lparr>zone = 9, west = 807 / 10, east = 1167 / 10\<rparr>
   \<and> \<not> arc_contains \<lparr>zone = 9, west = 807 / 10, east = 1167 / 10\<rparr> (1167 / 10)
   \<and> arc_contains \<lparr>zone = 8, west = 1167 / 10, east = 1527 / 10\<rparr> (1167 / 10)
   \<and> zone (lon_to_zone_interval_b64 (b64 (1167 / 10)) (b64 (1167 / 10))) = 8
   \<and> round (west (lon_to_zone_interval_b64 (b64 (1167 / 10)) (b64 (1167 / 10))) * 10000)
       = 1167000
   \<and> round (east (lon_to_zone_interval_b64 (b64 (1167 / 10)) (b64 (1167 / 10))) * 10000)
       = 1527000"
proof -
  have "lon_to_zone_interval (1167 / 10) LANGFANG_LON_EAST_BOUNDARY
     = \<lparr>zone = 8, west = 1167 / 10, east = 1527 / 10\<rparr>"
    by (simp add: lon_to_zone_interval_def zone_at_def zone_origin_def steps_east_of_def
        normalize_lon_point_eq py_mod_def LANGFANG_LON_EAST_BOUNDARY_def ZONE_WIDTH_DEG_def)
  moreover have "split_range (1167 / 10) (1527 / 10) = [(1167 / 10, 1527 / 10)]"
    by (simp add: split_range_def normalize_lon_edge_def py_mod_def)
  moreover have "zone_at (zone_origin LANGFANG_LON_EAST_BOUNDARY) 0
       = \<lparr>zone = 9, west = 807 / 10, east = 1167 / 10\<rparr>"
    by (simp add: zone_at_def zone_origin_def normalize_lon_point_eq py_mod_def
        LANGFANG_LON_EAST_BOUNDARY_def ZONE_WIDTH_DEG_def)
  moreover have "\<not> arc_contains \<lparr>zone = 9, west = 807 / 10, east = 1167 / 10\<rparr> (1167 / 10)"
    by (simp add: arc_contains_def py_mod_def)
  moreover have "arc_contains \<lparr>zone = 8, west = 1167 / 10, east = 1527 / 10\<rparr> (1167 / 10)"
    by (simp add: arc_contains_def py_mod_def)
  ultimately show ?thesis
    using display_4_decimals by (simp only: ltzi_b64_langfang ZoneInterval.simps simp_thms)
qed

subsection \<open>Rounding keeps integer bounds\<close>

lemma ilog2_lower: "1 \<le> n \<Longrightarrow> 2 ^ ilog2 n \<le> n"
proof (induction n rule: ilog2.induct)
  case (1 n)
  show ?case
  proof (cases "n < 2")
    case True
    then show ?thesis
      using "1.prems" by (simp add: ilog2.simps)
  next
    case False
    then have "1 \<le> n div 2" by simp
    then have "2 ^ ilog2 (n div 2) \<le> n div 2"
      using False "1.IH" by simp
    then have "2 * 2 ^ ilog2 (n div 2) \<le> n" by simp
    then show ?thesis
      using False by (simp add: ilog2.simps [of n])
  qed
qed

lemma binade_le_52:
  assumes "0 < a" "a < 2 ^ 53"
  shows "binade a \<le> 52"
proof (cases "1 \<le> a")
  case True
  let ?n = "nat \<lfloor>a\<rfloor>"
  have n: "1 \<le> ?n" using True by linarith
  have "real ?n \<le> a" using True by simp
  moreover have "2 ^ ilog2 ?n \<le> ?n" using n by (rule ilog2_lower)
  then have "(2::real) ^ ilog2 ?n \<le> real ?n"
    by (metis of_nat_le_iff of_nat_numeral of_nat_power)
  ultimately have "(2::real) ^ ilog2 ?n < 2 ^ 53"
    using assms by linarith
  then have "ilog2 ?n < 53"
    by (simp only: power_strict_increasing_iff [of "2::real"] one_less_numeral_iff semiring_norm)
  then show ?thesis
    using True by (simp add: binade_def)
next
  case False
  then show ?thesis by (simp add: binade_def)
qed

lemma round_half_even_bounds:
  "\<lfloor>q\<rfloor> \<le> round_half_even q \<and> round_half_even q \<le> \<lfloor>q\<rfloor> + 1"
  by (simp add: round_half_even_def Let_def)

lemma round_half_even_of_int: "round_half_even (of_int n) = n"
  by (simp add: round_half_even_def Let_def)

lemma round_half_even_le: "q \<le> of_int n \<Longrightarrow> round_half_even q \<le> n"
proof (cases "q = of_int n")
  case True
  then show ?thesis by (simp add: round_half_even_of_int)
next
  case False
  assume "q \<le> of_int n"
  with False have "q < of_int n" by simp
  then have "\<lfloor>q\<rfloor> < n" by (simp add: floor_less_iff)
  then show ?thesis
    using round_half_even_bounds [of q] by linarith
qed

lemma round_half_even_ge: "of_int n \<le> q \<Longrightarrow> n \<le> round_half_even q"
proof -
  assume "of_int n \<le> q"
  then have "n \<le> \<lfloor>q\<rfloor>" by (simp add: le_floor_iff)
  then show ?thesis
    using round_half_even_bounds [of q] by linarith
qed

text \<open>
  The spacing of the doubles around a number below \<open>2^53\<close> divides every integer.
\<close>

lemma b64_grid:
  assumes "x \<noteq> 0" "\<bar>x\<bar> < 2 ^ 53"
  obtains k :: nat where "b64 x = of_int (round_half_even (x * 2 ^ k)) / 2 ^ k"
proof -
  let ?e = "max (binade \<bar>x\<bar>) (- 1022)"
  have "?e \<le> 52"
    using binade_le_52 [of "\<bar>x\<bar>"] assms by simp
  then have u: "pow2 (?e - 52) = 1 / 2 ^ nat (52 - ?e)"
    by (auto simp: pow2_def)
  have "b64 x = of_int (round_half_even (x * 2 ^ nat (52 - ?e))) / 2 ^ nat (52 - ?e)"
    using assms(1) unfolding b64_def Let_def u by simp
  then show ?thesis ..
qed

lemma b64_le_int:
  assumes "x \<le> of_int c" "\<bar>x\<bar> < 2 ^ 53"
  shows "b64 x \<le> of_int c"
proof (cases "x = 0")
  case True
  then show ?thesis using assms by (simp add: b64_def)
next
  case False
  then obtain k :: nat where k: "b64 x = of_int (round_half_even (x * 2 ^ k)) / 2 ^ k"
    using assms(2) b64_grid by blast
  have "x * 2 ^ k \<le> of_int c * 2 ^ k"
    using assms(1) by simp
  then have "x * 2 ^ k \<le> of_int (c * 2 ^ k)"
    by simp
  then have "round_half_even (x * 2 ^ k) \<le> c * 2 ^ k"
    by (rule round_half_even_le)
  then have "real_of_int (round_half_even (x * 2 ^ k)) \<le> real_of_int (c * 2 ^ k)"
    by (simp only: of_int_le_iff)
  then have "real_of_int (round_half_even (x * 2 ^ k)) / 2 ^ k \<le> of_int c"
    by (simp add: divide_le_eq)
  then show ?thesis
    by (simp only: k)
qed

lemma b64_ge_int:
  assumes "of_int c \<le> x" "\<bar>x\<bar> < 2 ^ 53"
  shows "of_int c \<le> b64 x"
proof (cases "x = 0")
  case True
  then show ?thesis using assms by (simp add: b64_def)
next
  case False
  then obtain k :: nat where k: "b64 x = of_int (round_half_even (x * 2 ^ k)) / 2 ^ k"
    using assms(2) b64_grid by blast
  have "of_int c * 2 ^ k \<le> x * 2 ^ k"
    using assms(1) by simp
  then have "of_int (c * 2 ^ k) \<le> x * 2 ^ k"
    by simp
  then have "c * 2 ^ k \<le> round_half_even (x * 2 ^ k)"
    by (rule round_half_even_ge)
  then have "real_of_int (c * 2 ^ k) \<le> real_of_int (round_half_even (x * 2 ^ k))"
    by (simp only: of_int_le_iff)
  then have "of_int c \<le> real_of_int (round_half_even (x * 2 ^ k)) / 2 ^ k"
    by (simp add: le_divide_eq)
  then show ?thesis
    by (simp only: k)
qed


subsection \<open>The normalizer on doubles\<close>

lemma c_fmod_360_nonneg:
  assumes "0 \<le> x"
  shows "0 \<le> c_fmod x 360 \<and> c_fmod x 360 < 360"
proof -
  have "of_int \<lfloor>x / 360\<rfloor> \<le> x / 360" and "x / 360 < of_int \<lfloor>x / 360\<rfloor> + 1"
    by linarith+
  then show ?thesis
    using assms unfolding c_fmod_def by (simp add: field_simps)
qed

lemma c_fmod_360_neg:
  assumes "x < 0"
  shows "- 360 < c_fmod x 360 \<and> c_fmod x 360 \<le> 0"
proof -
  define f where "f = \<lfloor>- (x / 360)\<rfloor>"
  have "of_int f \<le> - (x / 360)" and "- (x / 360) < of_int f + 1"
    unfolding f_def by linarith+
  then have "360 * real_of_int f \<le> - x" and "- x < 360 * real_of_int f + 360"
    by linarith+
  moreover have "\<not> 0 \<le> x / 360"
    using assms by simp
  then have "c_fmod x 360 = x + 360 * real_of_int f"
    unfolding c_fmod_def f_def by simp
  ultimately show ?thesis
    by linarith
qed

lemma py_mod_b64_360_range: "0 \<le> py_mod_b64 y 360 \<and> py_mod_b64 y 360 \<le> 360"
proof (cases "c_fmod y 360 < 0")
  case True
  let ?t = "c_fmod y 360 + 360"
  have "y < 0"
    using True c_fmod_360_nonneg [of y] by (cases "0 \<le> y") auto
  then have t: "0 < ?t" "?t < 360"
    using True c_fmod_360_neg [of y] by auto
  have "of_int 0 \<le> b64 ?t"
    using t by (intro b64_ge_int) auto
  moreover have "b64 ?t \<le> of_int 360"
    using t by (intro b64_le_int) auto
  ultimately show ?thesis
    using True by (simp add: py_mod_b64_def Let_def)
next
  case False
  have "c_fmod y 360 < 360"
    using c_fmod_360_nonneg [of y] c_fmod_360_neg [of y] by (cases "0 \<le> y") auto
  then show ?thesis
    using False by (simp add: py_mod_b64_def Let_def)
qed

lemma b64_sub_180_range:
  assumes "0 \<le> m" "m \<le> 360"
  shows "- 180 \<le> b64 (m - 180) \<and> b64 (m - 180) \<le> 180"
proof -
  have "of_int (- 180) \<le> b64 (m - 180)"
    using assms by (intro b64_ge_int) auto
  moreover have "b64 (m - 180) \<le> of_int 180"
    using assms by (intro b64_le_int) auto
  ultimately show ?thesis by simp
qed

lemma normalize_lon_edge_b64_range:
  "- 180 \<le> normalize_lon_edge_b64 x \<and> normalize_lon_edge_b64 x \<le> 180"
  using b64_sub_180_range [OF conjunct1 [OF py_mod_b64_360_range] conjunct2 [OF py_mod_b64_360_range]]
  by (simp add: normalize_lon_edge_b64_def Let_def)

lemma normalize_lon_point_b64_range:
  "- 180 \<le> normalize_lon_point_b64 x \<and> normalize_lon_point_b64 x < 180"
  using normalize_lon_edge_b64_range [of x]
  by (simp add: normalize_lon_point_b64_def Let_def)






subsection \<open>The covering interval of a single point on doubles\<close>









subsection \<open>Degenerate query ranges on doubles\<close>

lemma split_range_b64_degenerate:
  "split_range_b64 x x = [(normalize_lon_edge_b64 x, normalize_lon_edge_b64 x)]"
  by (simp add: split_range_b64_def Let_def)

lemma split_range_b64_bounds:
  assumes "(s, t) \<in> set (split_range_b64 u v)"
  shows "- 180 \<le> s \<and> t \<le> 180"
  using assms normalize_lon_edge_b64_range [of u] normalize_lon_edge_b64_range [of v]
  by (auto simp: split_range_b64_def Let_def split: if_splits)

lemma split_range_b64_ends:
  assumes "(s, t) \<in> set (split_range_b64 u v)"
  shows "(s = normalize_lon_edge_b64 u \<or> s = - 180) \<and> (t = normalize_lon_edge_b64 v \<or> t = 180)"
  using assms by (auto simp: split_range_b64_def Let_def split: if_splits)

lemma zone_hit_b64_point:
  "zone_hit_b64 [(w, w)] zi
     \<longleftrightarrow> (\<exists>(s, t) \<in> set (split_range_b64 (west zi) (east zi)). s < w \<and> w < t)"
proof -
  have "zone_hit_b64 [(w, w)] zi
     \<longleftrightarrow> (\<exists>zp \<in> set (split_range_b64 (west zi) (east zi)). w < snd zp \<and> fst zp < w)"
    by (simp add: zone_hit_b64_def Let_def list_ex_iff ranges_intersect_def)
  also have "\<dots> \<longleftrightarrow> (\<exists>(s, t) \<in> set (split_range_b64 (west zi) (east zi)). s < w \<and> w < t)"
    by (auto simp: case_prod_beta)
  finally show ?thesis .
qed

lemma zone_hit_b64_inside:
  assumes "zone_hit_b64 [(w, w)] zi"
  shows "- 180 < w \<and> w < 180
    \<and> w \<noteq> normalize_lon_edge_b64 (west zi) \<and> w \<noteq> normalize_lon_edge_b64 (east zi)"
proof -
  obtain s t where st: "(s, t) \<in> set (split_range_b64 (west zi) (east zi))" and w: "s < w" "w < t"
    using assms by (auto simp: zone_hit_b64_point)
  have b: "- 180 \<le> s" "t \<le> 180"
    using split_range_b64_bounds [OF st] by auto
  let ?W = "normalize_lon_edge_b64 (west zi)" and ?E = "normalize_lon_edge_b64 (east zi)"
  have r: "- 180 \<le> ?W" "?W \<le> 180" "- 180 \<le> ?E" "?E \<le> 180"
    using normalize_lon_edge_b64_range by auto
  have "w \<noteq> ?W \<and> w \<noteq> ?E"
    using st w r by (auto simp: split_range_b64_def Let_def split: if_splits)
  then show ?thesis
    using w b by auto
qed

lemma set_zones_covered_b64_degenerate:
  "set (zones_covered_by_lon_range_b64 x x b)
     = {zi \<in> set (build_zone_intervals_b64 b).
          zone_hit_b64 [(normalize_lon_edge_b64 x, normalize_lon_edge_b64 x)] zi}"
  by (simp add: zones_covered_by_lon_range_b64_def split_range_b64_degenerate Let_def)

lemma zones_covered_b64_seam:
  assumes "normalize_lon_edge_b64 x = 180 \<or> normalize_lon_edge_b64 x = - 180"
  shows "zones_covered_by_lon_range_b64 x x b = []"
proof -
  have "set (zones_covered_by_lon_range_b64 x x b) = {}"
    using assms zone_hit_b64_inside [of "normalize_lon_edge_b64 x"]
    by (auto simp: set_zones_covered_b64_degenerate)
  then show ?thesis by simp
qed

lemmas nl_b64_eval = normalize_lon_point_b64_def normalize_lon_edge_b64_def ZONE_WIDTH_DEG_def b64_eval

lemma nle_b64_180: "normalize_lon_edge_b64 180 = 180"
  by (simp add: normalize_lon_edge_b64_def b64_eval)

lemma nlp_b64_180: "normalize_lon_point_b64 180 = - 180"
  by (simp add: normalize_lon_point_b64_def nle_b64_180)

lemma steps_b64_seam:
  "steps_east_of_b64 180 (8212032445533389 / 70368744177664) = 2"
  unfolding steps_east_of_b64_def nlp_b64_180 origin_b64_langfang Let_def ZONE_WIDTH_DEG_def
  by (simp add: b64_eval)

lemma zone_at_b64_seam:
  "zone_at_b64 (1419689413784371 / 17592186044416) 2
     = \<lparr>zone = 7, west = 2686326808982323 / 17592186044416,
         east = - 3013541469408461 / 17592186044416\<rparr>"
  by (simp add: zone_at_b64_def nl_b64_eval)

lemma ltzi_b64_seam:
  "lon_to_zone_interval_b64 180 (b64 (1167 / 10))
     = \<lparr>zone = 7, west = 2686326808982323 / 17592186044416,
         east = - 3013541469408461 / 17592186044416\<rparr>"
  by (simp only: b64_langfang lon_to_zone_interval_b64_def steps_b64_seam origin_b64_langfang
      zone_at_b64_seam)

lemma b64_1168: "b64 (1168 / 10) = 8219069319951155 / 70368744177664"
  by (simp add: b64_eval)

lemma nlp_b64_1168:
  "normalize_lon_point_b64 (8219069319951155 / 70368744177664) = 2054767329987789 / 17592186044416"
  by (simp add: normalize_lon_point_b64_def normalize_lon_edge_b64_def b64_eval)

lemma origin_b64_1168:
  "zone_origin_b64 (8219069319951155 / 70368744177664) = 1421448632388813 / 17592186044416"
  unfolding zone_origin_b64_def nlp_b64_1168 Let_def ZONE_WIDTH_DEG_def
  by (simp add: normalize_lon_point_b64_def normalize_lon_edge_b64_def b64_eval)

lemma zone_at_b64_1168_6:
  "zone_at_b64 (1421448632388813 / 17592186044416) 6
     = \<lparr>zone = 3, west = - 1111826158007091 / 17592186044416,
         east = - 478507460408115 / 17592186044416\<rparr>"
  by (simp add: zone_at_b64_def nl_b64_eval)

lemma zone_at_b64_1168_7:
  "zone_at_b64 (1421448632388813 / 17592186044416) 7
     = \<lparr>zone = 2, west = - 119626865102029 / 4398046511104,
         east = 38702809297715 / 4398046511104\<rparr>"
  by (simp add: zone_at_b64_def nl_b64_eval)

lemma nle_b64_overlap_point:
  "normalize_lon_edge_b64 (- 957014920816231 / 35184372088832) = - 957014920816231 / 35184372088832"
  by (simp add: normalize_lon_edge_b64_def b64_eval)

lemma split_b64_zone3:
  "split_range_b64 (- 1111826158007091 / 17592186044416) (- 478507460408115 / 17592186044416)
     = [(- 1111826158007091 / 17592186044416, - 478507460408115 / 17592186044416)]"
  by (simp add: split_range_b64_def normalize_lon_edge_b64_def b64_eval)

lemma split_b64_zone2:
  "split_range_b64 (- 119626865102029 / 4398046511104) (38702809297715 / 4398046511104)
     = [(- 119626865102029 / 4398046511104, 38702809297715 / 4398046511104)]"
  by (simp add: split_range_b64_def normalize_lon_edge_b64_def b64_eval)

lemma build_b64_1168_members:
  "\<lparr>zone = 3, west = - 1111826158007091 / 17592186044416,
         east = - 478507460408115 / 17592186044416\<rparr>
     \<in> set (build_zone_intervals_b64 (b64 (1168 / 10)))
   \<and> \<lparr>zone = 2, west = - 119626865102029 / 4398046511104,
         east = 38702809297715 / 4398046511104\<rparr>
     \<in> set (build_zone_intervals_b64 (b64 (1168 / 10)))"
proof -
  have "zone_at_b64 (1421448632388813 / 17592186044416) 6
      \<in> set (build_zone_intervals_b64 (b64 (1168 / 10)))"
    unfolding build_zone_intervals_b64_def b64_1168 origin_b64_1168 Let_def by simp
  moreover have "zone_at_b64 (1421448632388813 / 17592186044416) 7
      \<in> set (build_zone_intervals_b64 (b64 (1168 / 10)))"
    unfolding build_zone_intervals_b64_def b64_1168 origin_b64_1168 Let_def by simp
  ultimately show ?thesis
    by (simp only: zone_at_b64_1168_6 zone_at_b64_1168_7)
qed

text \<open>
  With the boundary 116.8 the rounded edges of zones 3 and 2 overlap: zone 3 ends at
  \<open>-27.19999999999999\<close> and zone 2 starts at \<open>-27.200000000000045\<close>. The double
  \<open>-27.200000000000017\<close> lies strictly inside both.
\<close>

lemma overlap_point_covered:
  "\<lparr>zone = 3, west = - 1111826158007091 / 17592186044416,
         east = - 478507460408115 / 17592186044416\<rparr>
       \<in> set (zones_covered_by_lon_range_b64 (- 957014920816231 / 35184372088832)
                (- 957014920816231 / 35184372088832) (b64 (1168 / 10)))
   \<and> \<lparr>zone = 2, west = - 119626865102029 / 4398046511104,
         east = 38702809297715 / 4398046511104\<rparr>
       \<in> set (zones_covered_by_lon_range_b64 (- 957014920816231 / 35184372088832)
                (- 957014920816231 / 35184372088832) (b64 (1168 / 10)))"
proof -
  have "zone_hit_b64 [(- 957014920816231 / 35184372088832, - 957014920816231 / 35184372088832)]
      \<lparr>zone = 3, west = - 1111826158007091 / 17592186044416,
         east = - 478507460408115 / 17592186044416\<rparr>"
    unfolding zone_hit_b64_def Let_def ZoneInterval.simps split_b64_zone3
    by (simp add: ranges_intersect_def)
  moreover have "zone_hit_b64 [(- 957014920816231 / 35184372088832, - 957014920816231 / 35184372088832)]
      \<lparr>zone = 2, west = - 119626865102029 / 4398046511104,
         east = 38702809297715 / 4398046511104\<rparr>"
    unfolding zone_hit_b64_def Let_def ZoneInterval.simps split_b64_zone2
    by (simp add: ranges_intersect_def)
  ultimately show ?thesis
    using build_b64_1168_members
    unfolding set_zones_covered_b64_degenerate nle_b64_overlap_point
    by blast
qed

text \<open>
  Claim C9, as amended. A query range with west equal to east covers exactly the zones
  that have the edge-normalized point strictly inside one of their split segments, in
  ascending order of zone number. So it never covers a zone of which the point is the
  (edge-normalized) west or east edge, and it covers no zone at all when the point is
  \<open>+180\<close> or \<open>-180\<close>, the seam, whether or not a zone boundary lies there.
\<close>

theorem degenerate_range_zones_b64:
  "(normalize_lon_edge_b64 x = 180 \<or> normalize_lon_edge_b64 x = - 180
      \<longrightarrow> zones_covered_by_lon_range_b64 x x b = [])
   \<and> set (zones_covered_by_lon_range_b64 x x b)
       = {zi \<in> set (build_zone_intervals_b64 b).
            \<exists>(s, t) \<in> set (split_range_b64 (west zi) (east zi)).
              s < normalize_lon_edge_b64 x \<and> normalize_lon_edge_b64 x < t}
   \<and> (\<forall>zi \<in> set (zones_covered_by_lon_range_b64 x x b).
         normalize_lon_edge_b64 x \<noteq> normalize_lon_edge_b64 (west zi)
         \<and> normalize_lon_edge_b64 x \<noteq> normalize_lon_edge_b64 (east zi))
   \<and> sorted (map zone (zones_covered_by_lon_range_b64 x x b))
   \<and> length (zones_covered_by_lon_range_b64 x x b) \<le> 10"
proof (intro conjI)
  show "normalize_lon_edge_b64 x = 180 \<or> normalize_lon_edge_b64 x = - 180
      \<longrightarrow> zones_covered_by_lon_range_b64 x x b = []"
    using zones_covered_b64_seam by blast
  show "set (zones_covered_by_lon_range_b64 x x b)
       = {zi \<in> set (build_zone_intervals_b64 b).
            \<exists>(s, t) \<in> set (split_range_b64 (west zi) (east zi)).
              s < normalize_lon_edge_b64 x \<and> normalize_lon_edge_b64 x < t}"
    by (simp only: set_zones_covered_b64_degenerate zone_hit_b64_point)
  show "\<forall>zi \<in> set (zones_covered_by_lon_range_b64 x x b).
         normalize_lon_edge_b64 x \<noteq> normalize_lon_edge_b64 (west zi)
         \<and> normalize_lon_edge_b64 x \<noteq> normalize_lon_edge_b64 (east zi)"
    using zone_hit_b64_inside [of "normalize_lon_edge_b64 x"]
    by (auto simp: set_zones_covered_b64_degenerate)
  show "sorted (map zone (zones_covered_by_lon_range_b64 x x b))"
    by (simp add: zones_covered_by_lon_range_b64_def Let_def)
  have "length (zones_covered_by_lon_range_b64 x x b) \<le> length (build_zone_intervals_b64 b)"
    by (simp add: zones_covered_by_lon_range_b64_def Let_def)
  then show "length (zones_covered_by_lon_range_b64 x x b) \<le> 10"
    by (simp add: build_zone_intervals_b64_def Let_def)
qed

theorem degenerate_range_zones_b64_witness:
  "(normalize_lon_edge_b64 180 = 180 \<or> normalize_lon_edge_b64 180 = - 180)
   \<and> zones_covered_by_lon_range_b64 180 180 (b64 (1167 / 10)) = []
   \<and> \<lparr>zone = 2, west = - 119626865102029 / 4398046511104,
         east = 38702809297715 / 4398046511104\<rparr>
       \<in> set (zones_covered_by_lon_range_b64 (- 957014920816231 / 35184372088832)
                (- 957014920816231 / 35184372088832) (b64 (1168 / 10)))
   \<and> normalize_lon_edge_b64 (- 957014920816231 / 35184372088832)
       \<noteq> normalize_lon_edge_b64 (west \<lparr>zone = 2, west = - 119626865102029 / 4398046511104,
         east = 38702809297715 / 4398046511104\<rparr>)"
proof -
  have s: "normalize_lon_edge_b64 180 = 180 \<or> normalize_lon_edge_b64 180 = - 180"
    using nle_b64_180 by simp
  have "zones_covered_by_lon_range_b64 180 180 (b64 (1167 / 10)) = []"
    using degenerate_range_zones_b64 [of 180 "b64 (1167 / 10)"] s by blast
  moreover have "normalize_lon_edge_b64 (- 957014920816231 / 35184372088832)
       \<noteq> normalize_lon_edge_b64 (west \<lparr>zone = 2, west = - 119626865102029 / 4398046511104,
         east = 38702809297715 / 4398046511104\<rparr>)"
    using degenerate_range_zones_b64 [of "- 957014920816231 / 35184372088832" "b64 (1168 / 10)"]
      overlap_point_covered by blast
  ultimately show ?thesis
    using s overlap_point_covered by blast
qed

text \<open>
  Claim C9 as stated fails. On the seam: with the default boundary, 180 is not a zone
  boundary (its normalized point \<open>-180\<close> lies inside zone 7, from 152.7 eastward to
  -171.3), and the degenerate range at 180 covers no zone. Off the seam: with the
  boundary 116.8 the degenerate range at \<open>-27.200000000000017\<close> covers two zones.
\<close>

theorem degenerate_range_b64_counterexample:
  "zones_covered_by_lon_range_b64 180 180 (b64 (1167 / 10)) = []
   \<and> normalize_lon_point_b64 180 = - 180
   \<and> lon_to_zone_interval_b64 180 (b64 (1167 / 10))
       = \<lparr>zone = 7, west = 2686326808982323 / 17592186044416,
           east = - 3013541469408461 / 17592186044416\<rparr>
   \<and> \<lparr>zone = 3, west = - 1111826158007091 / 17592186044416,
         east = - 478507460408115 / 17592186044416\<rparr>
       \<in> set (zones_covered_by_lon_range_b64 (- 957014920816231 / 35184372088832)
                (- 957014920816231 / 35184372088832) (b64 (1168 / 10)))
   \<and> \<lparr>zone = 2, west = - 119626865102029 / 4398046511104,
         east = 38702809297715 / 4398046511104\<rparr>
       \<in> set (zones_covered_by_lon_range_b64 (- 957014920816231 / 35184372088832)
                (- 957014920816231 / 35184372088832) (b64 (1168 / 10)))"
proof -
  have "zones_covered_by_lon_range_b64 180 180 (b64 (1167 / 10)) = []"
    using nle_b64_180 by (intro zones_covered_b64_seam) simp
  then show ?thesis
    using overlap_point_covered nlp_b64_180 ltzi_b64_seam by blast
qed

section \<open>The layer of special values\<close>

lemma normalize_lon_edge_x_special:
  "normalize_lon_edge_x NaN = Inr NaN \<and> normalize_lon_edge_x PInf = Inr NaN
   \<and> normalize_lon_edge_x NInf = Inr NaN"
  by (simp add: normalize_lon_edge_x_def sub_x_def)

lemma normalize_lon_point_x_special:
  "normalize_lon_point_x NaN = Inr NaN \<and> normalize_lon_point_x PInf = Inr NaN
   \<and> normalize_lon_point_x NInf = Inr NaN"
  by (simp add: normalize_lon_point_x_def normalize_lon_edge_x_def sub_x_def)

lemma normalize_lon_edge_x_Fin:
  "normalize_lon_edge_x (Fin x) = Inr (Fin (normalize_lon_edge x))"
  by (simp add: normalize_lon_edge_x_def normalize_lon_edge_def sub_x_def Let_def)

lemma normalize_lon_point_x_Fin:
  "normalize_lon_point_x (Fin x) = Inr (Fin (normalize_lon_point x))"
  by (simp add: normalize_lon_point_x_def normalize_lon_edge_x_Fin normalize_lon_point_def Let_def)

lemma steps_east_of_x_special:
  "steps_east_of_x NaN (Fin b) = Inl ValueError
   \<and> steps_east_of_x PInf (Fin b) = Inl ValueError
   \<and> steps_east_of_x NInf (Fin b) = Inl ValueError"
  by (simp add: steps_east_of_x_def normalize_lon_point_x_special normalize_lon_point_x_Fin
      sub_x_def)

lemma steps_east_of_x_Fin: "steps_east_of_x (Fin x) (Fin b) = Inr (steps_east_of x b)"
  by (simp add: steps_east_of_x_def normalize_lon_point_x_Fin sub_x_def steps_east_of_def
      zone_origin_def ZONE_WIDTH_DEG_def Let_def)

text \<open>
  Claim C4, as amended. The normalizers never signal failure. On NaN and on either
  infinity they return NaN (an infinity becomes NaN at the \<open>%\<close> operation); on a finite
  input they return the result of the exact layer. The NaN reaches the interval
  arithmetic of \<open>lon_to_zone_interval\<close>, where \<open>math.floor\<close> is the first operation to
  raise, with \<open>ValueError\<close>.
\<close>

theorem normalizer_never_fails:
  "(\<exists>r. normalize_lon_edge_x v = Inr r) \<and> (\<exists>r. normalize_lon_point_x v = Inr r)
   \<and> normalize_lon_edge_x NaN = Inr NaN \<and> normalize_lon_edge_x PInf = Inr NaN
   \<and> normalize_lon_edge_x NInf = Inr NaN
   \<and> normalize_lon_point_x NaN = Inr NaN \<and> normalize_lon_point_x PInf = Inr NaN
   \<and> normalize_lon_point_x NInf = Inr NaN
   \<and> normalize_lon_edge_x (Fin x) = Inr (Fin (normalize_lon_edge x))
   \<and> normalize_lon_point_x (Fin x) = Inr (Fin (normalize_lon_point x))
   \<and> steps_east_of_x NaN (Fin b) = Inl ValueError
   \<and> steps_east_of_x PInf (Fin b) = Inl ValueError
   \<and> steps_east_of_x NInf (Fin b) = Inl ValueError"
proof -
  have "\<exists>r. normalize_lon_edge_x v = Inr r"
    by (simp add: normalize_lon_edge_x_def Let_def)
  moreover have "\<exists>r. normalize_lon_point_x v = Inr r"
    by (simp add: normalize_lon_point_x_def normalize_lon_edge_x_def Let_def)
  ultimately show ?thesis
    using normalize_lon_edge_x_special normalize_lon_point_x_special
      normalize_lon_edge_x_Fin [of x] normalize_lon_point_x_Fin [of x]
      steps_east_of_x_special [of b]
    by simp
qed

text \<open>
  Claim C4 as stated fails: on NaN and on an infinity the normalizers return a value,
  they do not fail.
\<close>

theorem normalizer_rejects_counterexample:
  "\<not> isl (normalize_lon_edge_x NaN) \<and> \<not> isl (normalize_lon_edge_x PInf)
   \<and> \<not> isl (normalize_lon_point_x NaN) \<and> \<not> isl (normalize_lon_point_x NInf)"
  by (simp add: normalize_lon_point_x_def normalize_lon_edge_x_def sub_x_def)

end
